theory Spec2Isabelle
  imports Complex_Main "HOL-Library.Word"
begin

unbundle bit_operations_syntax

section \<open>The Perlin noise generator of main.cpp\<close>

text \<open>
  The noise code of \<^verbatim>\<open>main.cpp\<close> (the permutation table, \<^verbatim>\<open>lerp\<close>, \<^verbatim>\<open>fade\<close>,
  \<^verbatim>\<open>gradientDotDistance\<close>, \<^verbatim>\<open>noiseValue\<close>) and the octave sum in the render loop of
  \<^verbatim>\<open>main\<close>, as HOL functions.

  Numbers. A C++ \<^verbatim>\<open>float\<close> is modelled as a \<^typ>\<open>real\<close>: every arithmetic operation is
  exact, so rounding, overflow to infinity and NaN operands are outside the model (the one
  NaN the program can produce itself, from \<^verbatim>\<open>pow\<close> of a negative base, is kept as
  \<^const>\<open>None\<close>). Every literal has the value the compiler gives it: all literals of the
  noise code are whole numbers or 0.5 and are floats as written, except \<^verbatim>\<open>1.2f\<close>, which
  is the float nearest to 1.2 and not 1.2 itself. A C++ \<^verbatim>\<open>int\<close> is a \<^typ>\<open>32 word\<close> where the program applies a bit mask to
  the result of a conversion, and an \<^typ>\<open>int\<close> afterwards, where every value is below 512.

  Undefined behaviour. The three places where the C++ standard leaves the behaviour of the
  noise code undefined are results of the model: a float-to-int conversion whose value does
  not fit an \<^verbatim>\<open>int\<close>, an array read outside the 512 entries of the table, and the end of
  \<^verbatim>\<open>gradientDotDistance\<close> reached without a \<^verbatim>\<open>return\<close>.
\<close>

subsection \<open>Undefined behaviour as a result\<close>

datatype error = ConversionOutOfRange | IndexOutOfBounds | MissingReturn

type_synonym 'a result = "error + 'a"

text \<open>Sequencing: the first undefined step decides the result.\<close>

definition and_then :: "'a result \<Rightarrow> ('a \<Rightarrow> 'b result) \<Rightarrow> 'b result" where
  "and_then m f = (case m of Inl e \<Rightarrow> Inl e | Inr v \<Rightarrow> f v)"

subsection \<open>The permutation table\<close>

text \<open>\<^verbatim>\<open>const int permutationTable[512]\<close>, entry by entry.\<close>

definition permutationTable :: "int list" where
  "permutationTable = [
   151, 160, 137, 91, 90, 15, 131, 13, 201, 95, 96, 53, 194, 233, 7,
   225, 140, 36, 103, 30, 69, 142, 8, 99, 37, 240, 21, 10, 23, 190, 6, 148, 247,
   120, 234, 75, 0, 26, 197, 62, 94, 252, 219, 203, 117, 35, 11, 32, 57, 177, 33,
   88, 237, 149, 56, 87, 174, 20, 125, 136, 171, 168, 68, 175, 74, 165, 71, 134,
   139, 48, 27, 166, 77, 146, 158, 231, 83, 111, 229, 122, 60, 211, 133, 230, 220,
   105, 92, 41, 55, 46, 245, 40, 244, 102, 143, 54, 65, 25, 63, 161, 1, 216, 80,
   73, 209, 76, 132, 187, 208, 89, 18, 169, 200, 196, 135, 130, 116, 188, 159, 86,
   164, 100, 109, 198, 173, 186, 3, 64, 52, 217, 226, 250, 124, 123, 5, 202, 38,
   147, 118, 126, 255, 82, 85, 212, 207, 206, 59, 227, 47, 16, 58, 17, 182, 189,
   28, 42, 223, 183, 170, 213, 119, 248, 152, 2, 44, 154, 163, 70, 221, 153, 101,
   155, 167, 43, 172, 9, 129, 22, 39, 253, 19, 98, 108, 110, 79, 113, 224, 232,
   178, 185, 112, 104, 218, 246, 97, 228, 251, 34, 242, 193, 238, 210, 144, 12,
   191, 179, 162, 241, 81, 51, 145, 235, 249, 14, 239, 107, 49, 192, 214, 31, 181,
   199, 106, 157, 184, 84, 204, 176, 115, 121, 50, 45, 127, 4, 150, 254, 138, 236,
   205, 93, 222, 114, 67, 29, 24, 72, 243, 141, 128, 195, 78, 66, 215, 61, 156, 180,
   151, 160, 137, 91, 90, 15, 131, 13, 201, 95, 96, 53, 194, 233, 7,
   225, 140, 36, 103, 30, 69, 142, 8, 99, 37, 240, 21, 10, 23, 190, 6, 148, 247,
   120, 234, 75, 0, 26, 197, 62, 94, 252, 219, 203, 117, 35, 11, 32, 57, 177, 33,
   88, 237, 149, 56, 87, 174, 20, 125, 136, 171, 168, 68, 175, 74, 165, 71, 134,
   139, 48, 27, 166, 77, 146, 158, 231, 83, 111, 229, 122, 60, 211, 133, 230, 220,
   105, 92, 41, 55, 46, 245, 40, 244, 102, 143, 54, 65, 25, 63, 161, 1, 216, 80,
   73, 209, 76, 132, 187, 208, 89, 18, 169, 200, 196, 135, 130, 116, 188, 159, 86,
   164, 100, 109, 198, 173, 186, 3, 64, 52, 217, 226, 250, 124, 123, 5, 202, 38,
   147, 118, 126, 255, 82, 85, 212, 207, 206, 59, 227, 47, 16, 58, 17, 182, 189,
   28, 42, 223, 183, 170, 213, 119, 248, 152, 2, 44, 154, 163, 70, 221, 153, 101,
   155, 167, 43, 172, 9, 129, 22, 39, 253, 19, 98, 108, 110, 79, 113, 224, 232,
   178, 185, 112, 104, 218, 246, 97, 228, 251, 34, 242, 193, 238, 210, 144, 12,
   191, 179, 162, 241, 81, 51, 145, 235, 249, 14, 239, 107, 49, 192, 214, 31, 181,
   199, 106, 157, 184, 84, 204, 176, 115, 121, 50, 45, 127, 4, 150, 254, 138, 236,
   205, 93, 222, 114, 67, 29, 24, 72, 243, 141, 128, 195, 78, 66, 215, 61, 156, 180]"

text \<open>\<^verbatim>\<open>permutationTable[i]\<close>: a read outside the array is undefined.\<close>

definition table_at :: "int \<Rightarrow> int result" where
  "table_at i = (if 0 \<le> i \<and> i < 512 then Inr (permutationTable ! nat i) else Inl IndexOutOfBounds)"

subsection \<open>Interpolation, easing and gradients\<close>

text \<open>\<^verbatim>\<open>return a * (1.0f - w) + b * w;\<close>\<close>

definition lerp :: "real \<Rightarrow> real \<Rightarrow> real \<Rightarrow> real" where
  "lerp w a b = a * (1 - w) + b * w"

text \<open>\<^verbatim>\<open>return t * t * t * (t * (t * 6 - 15) + 10);\<close>\<close>

definition fade :: "real \<Rightarrow> real" where
  "fade t = t * t * t * (t * (t * 6 - 15) + 10)"

text \<open>
  The \<^verbatim>\<open>switch\<close> on \<^verbatim>\<open>hash\<close> has the cases 0 to 7 and no default: for any other value
  the function ends without returning a value.
\<close>

definition gradientDotDistance :: "int \<Rightarrow> real \<Rightarrow> real \<Rightarrow> real result" where
  "gradientDotDistance hash xOffset zOffset =
     (if hash = 0 then Inr (xOffset + zOffset)
      else if hash = 1 then Inr (- xOffset + zOffset)
      else if hash = 2 then Inr (xOffset - zOffset)
      else if hash = 3 then Inr (- xOffset - zOffset)
      else if hash = 4 then Inr xOffset
      else if hash = 5 then Inr zOffset
      else if hash = 6 then Inr (- xOffset)
      else if hash = 7 then Inr (- zOffset)
      else Inl MissingReturn)"

subsection \<open>The noise value of a point\<close>

text \<open>\<^verbatim>\<open>floor(x)\<close>: the largest whole number not above \<open>x\<close>, as a float.\<close>

definition floor_c :: "real \<Rightarrow> real" where
  "floor_c x = of_int \<lfloor>x\<rfloor>"

text \<open>The values of a 32-bit \<^verbatim>\<open>int\<close>, from \<^verbatim>\<open>INT_MIN\<close> to \<^verbatim>\<open>INT_MAX\<close>.\<close>

definition fits_int :: "int \<Rightarrow> bool" where
  "fits_int k \<longleftrightarrow> - (2 ^ 31) \<le> k \<and> k < 2 ^ 31"

text \<open>
  The cast \<^verbatim>\<open>(int)v\<close> of a float drops the fractional part (rounds towards zero); it is
  undefined when the whole number that remains is not a value of \<^verbatim>\<open>int\<close>.
\<close>

definition float_to_int :: "real \<Rightarrow> 32 word result" where
  "float_to_int v =
     (let t = (if 0 \<le> v then \<lfloor>v\<rfloor> else \<lceil>v\<rceil>)
      in if fits_int t then Inr (word_of_int t) else Inl ConversionOutOfRange)"

text \<open>\<^verbatim>\<open>(int)floor(x) & 255\<close>, the value of \<^verbatim>\<open>gridX\<close> and of \<^verbatim>\<open>gridZ\<close>.\<close>

definition gridIndex :: "real \<Rightarrow> int result" where
  "gridIndex x = and_then (float_to_int (floor_c x)) (\<lambda>c. Inr (sint (c AND 255)))"

text \<open>\<^verbatim>\<open>permutationTable[permutationTable[a] + b]\<close>, the double lookup of a corner.\<close>

definition cornerHash :: "int \<Rightarrow> int \<Rightarrow> int result" where
  "cornerHash a b = and_then (table_at a) (\<lambda>p. table_at (p + b))"

text \<open>
  The body of \<^verbatim>\<open>noiseValue\<close> from \<^verbatim>\<open>float u = fade(x);\<close> on, where \<open>x\<close> and \<open>z\<close>
  already are the offsets into the cell.
\<close>

definition cellNoise :: "int \<Rightarrow> int \<Rightarrow> real \<Rightarrow> real \<Rightarrow> real result" where
  "cellNoise gridX gridZ x z =
     (let u = fade x; v = fade z in
      and_then (cornerHash gridX gridZ) (\<lambda>gradientBottomLeft.
      and_then (cornerHash (gridX + 1) gridZ) (\<lambda>gradientBottomRight.
      and_then (cornerHash gridX (gridZ + 1)) (\<lambda>gradientTopLeft.
      and_then (cornerHash (gridX + 1) (gridZ + 1)) (\<lambda>gradientTopRight.
      and_then (gradientDotDistance (gradientBottomLeft AND 7) x z) (\<lambda>dotBottomLeft.
      and_then (gradientDotDistance (gradientBottomRight AND 7) (x - 1) z) (\<lambda>dotBottomRight.
      and_then (gradientDotDistance (gradientTopLeft AND 7) x (z - 1)) (\<lambda>dotTopLeft.
      and_then (gradientDotDistance (gradientTopRight AND 7) (x - 1) (z - 1)) (\<lambda>dotTopRight.
        Inr (0.5 * lerp v (lerp u dotBottomLeft dotBottomRight)
                          (lerp u dotTopLeft dotTopRight) + 0.5))))))))))"

definition noiseValue :: "real \<Rightarrow> real \<Rightarrow> real result" where
  "noiseValue x z =
     and_then (gridIndex x) (\<lambda>gridX.
     and_then (gridIndex z) (\<lambda>gridZ.
       cellNoise gridX gridZ (x - floor_c x) (z - floor_c z)))"

subsection \<open>The octave sum of the render loop\<close>




subsection \<open>The specification's formulas\<close>

text \<open>
  These definitions follow the words of the specification, not the code; the code is
  compared with them below. The eight gradient directions, index 0 to 7, and the dot
  product of two vectors:
\<close>

definition spec_gradientDirections :: "(real \<times> real) list" where
  "spec_gradientDirections =
     [(1, 1), (-1, 1), (1, -1), (-1, -1), (1, 0), (0, 1), (-1, 0), (0, -1)]"

definition spec_dotProduct :: "real \<times> real \<Rightarrow> real \<times> real \<Rightarrow> real" where
  "spec_dotProduct g d = fst g * fst d + snd g * snd d"




section \<open>Properties\<close>

subsection \<open>The permutation table\<close>

lemma table_length: "length permutationTable = 512"
  by (simp add: permutationTable_def)

lemma table_range: "list_all (\<lambda>v. 0 \<le> v \<and> v \<le> 255) permutationTable"
  by (simp add: permutationTable_def)

lemma table_copy: "drop 256 permutationTable = take 256 permutationTable"
  by (simp add: permutationTable_def)

lemma table_distinct: "distinct (take 256 permutationTable)"
  by (simp add: permutationTable_def)

lemma table_entry: "i < 512 \<Longrightarrow> 0 \<le> permutationTable ! i \<and> permutationTable ! i \<le> 255"
  using table_range by (simp add: list_all_length table_length)

lemma table_first_half_set: "set (take 256 permutationTable) = {0..255}"
proof (rule card_subset_eq)
  show "finite {0..255::int}" by simp
  show "set (take 256 permutationTable) \<subseteq> {0..255}"
    using table_range by (auto simp: list_all_iff dest: in_set_takeD)
  have "card (set (take 256 permutationTable)) = length (take 256 permutationTable)"
    by (rule distinct_card) (rule table_distinct)
  then show "card (set (take 256 permutationTable)) = card {0..255::int}"
    by (simp add: table_length)
qed

lemma count_list_distinct: "distinct xs \<Longrightarrow> x \<in> set xs \<Longrightarrow> count_list xs x = 1"
  by (induction xs) auto

lemma table_count:
  assumes "0 \<le> v" "v \<le> 255"
  shows "count_list permutationTable v = 2"
proof -
  let ?a = "take 256 permutationTable"
  have "permutationTable = ?a @ drop 256 permutationTable" by simp
  then have halves: "permutationTable = ?a @ ?a" by (simp only: table_copy)
  have "v \<in> set ?a" using assms by (simp add: table_first_half_set)
  then have "count_list ?a v = 1" by (rule count_list_distinct [OF table_distinct])
  then have "count_list (?a @ ?a) v = 2" by simp
  then show ?thesis using halves by simp
qed

text \<open>
  Claim C7. The permutation table has 512 entries, each between 0 and 255; every value from
  0 to 255 occurs in it exactly twice; entries 256 to 511 repeat entries 0 to 255 in order;
  and entries 0 to 255 are a permutation of the numbers 0 to 255 (no entry repeats and every
  number occurs).
\<close>

theorem permutation_table_shape:
  "length permutationTable = 512
   \<and> (\<forall>v \<in> set permutationTable. 0 \<le> v \<and> v \<le> 255)
   \<and> (\<forall>v. 0 \<le> v \<and> v \<le> 255 \<longrightarrow> count_list permutationTable v = 2)
   \<and> (\<forall>i < 256. permutationTable ! (256 + i) = permutationTable ! i)
   \<and> distinct (take 256 permutationTable)
   \<and> set (take 256 permutationTable) = {0..255}"
proof (intro conjI)
  show "length permutationTable = 512" by (rule table_length)
  show "\<forall>v \<in> set permutationTable. 0 \<le> v \<and> v \<le> 255"
    using table_range by (simp add: list_all_iff)
  show "\<forall>v. 0 \<le> v \<and> v \<le> 255 \<longrightarrow> count_list permutationTable v = 2"
    by (simp add: table_count)
  show "\<forall>i < 256. permutationTable ! (256 + i) = permutationTable ! i"
  proof (intro allI impI)
    fix i :: nat assume i: "i < 256"
    have "permutationTable ! (256 + i) = drop 256 permutationTable ! i"
      by (simp add: table_length)
    also have "\<dots> = take 256 permutationTable ! i" by (simp only: table_copy)
    also have "\<dots> = permutationTable ! i" using i by simp
    finally show "permutationTable ! (256 + i) = permutationTable ! i" .
  qed
  show "distinct (take 256 permutationTable)" by (rule table_distinct)
  show "set (take 256 permutationTable) = {0..255}" by (rule table_first_half_set)
qed

text \<open>At the value 151 (the first entry) and at index 3 (the entry 91).\<close>

theorem permutation_table_shape_witness:
  "(151::int) \<in> set permutationTable \<and> count_list permutationTable 151 = 2
   \<and> permutationTable ! (256 + 3) = permutationTable ! 3 \<and> permutationTable ! 3 = 91"
proof -
  have m: "(151::int) \<in> set permutationTable" by (simp add: permutationTable_def)
  have "\<forall>v. 0 \<le> v \<and> v \<le> 255 \<longrightarrow> count_list permutationTable v = 2"
    using permutation_table_shape by blast
  then have c: "count_list permutationTable 151 = 2" by simp
  have copy: "\<forall>i < 256. permutationTable ! (256 + i) = permutationTable ! i"
    using permutation_table_shape by blast
  have d: "permutationTable ! (256 + 3) = permutationTable ! 3"
    using copy [rule_format, of 3] by simp
  have e: "permutationTable ! 3 = 91" by (simp add: permutationTable_def)
  from m c d e show ?thesis by blast
qed

subsection \<open>The easing curve\<close>

text \<open>
  Claim C6. \<^verbatim>\<open>fade\<close>, written \<open>t * t * t * (t * (t * 6 - 15) + 10)\<close> in the code, is the
  polynomial \<open>6 t\<^sup>5 - 15 t\<^sup>4 + 10 t\<^sup>3\<close>; it takes 0 to 0, 1 to 1 and 1/2 to 1/2, and
  its first derivative is 0 at 0 and at 1.
\<close>

theorem fade_quintic:
  "fade t = 6 * t ^ 5 - 15 * t ^ 4 + 10 * t ^ 3
   \<and> fade 0 = 0 \<and> fade 1 = 1 \<and> fade (1 / 2) = 1 / 2
   \<and> (fade has_real_derivative 0) (at 0)
   \<and> (fade has_real_derivative 0) (at 1)"
proof (intro conjI)
  show "fade t = 6 * t ^ 5 - 15 * t ^ 4 + 10 * t ^ 3"
    by (simp add: fade_def power_numeral_reduce algebra_simps)
  show "fade 0 = 0" "fade 1 = 1" "fade (1 / 2) = 1 / 2"
    by (simp_all add: fade_def)
  show "(fade has_real_derivative 0) (at 0)"
    unfolding fade_def by (auto intro!: derivative_eq_intros)
  show "(fade has_real_derivative 0) (at 1)"
    unfolding fade_def by (auto intro!: derivative_eq_intros)
qed

text \<open>On the unit interval the curve stays between 0 and 1.\<close>

lemma fade_nonneg:
  assumes "0 \<le> t"
  shows "0 \<le> fade t"
proof -
  have "t * (t * 6 - 15) + 10 = 6 * (t - 5 / 4)\<^sup>2 + 5 / 8"
    by (simp add: power2_eq_square algebra_simps)
  then have poly: "0 \<le> t * (t * 6 - 15) + 10" by simp
  have cube: "0 \<le> t * t * t" using assms by simp
  show ?thesis unfolding fade_def using cube poly by (rule mult_nonneg_nonneg)
qed

lemma fade_reflect: "fade (1 - t) = 1 - fade t"
  by (simp add: fade_def algebra_simps)

lemma fade_le_one:
  assumes "t \<le> 1"
  shows "fade t \<le> 1"
proof -
  have "0 \<le> fade (1 - t)" using assms by (intro fade_nonneg) simp
  then show ?thesis by (simp add: fade_reflect)
qed

text \<open>A weight between 0 and 1 keeps \<^verbatim>\<open>lerp\<close> within a bound on both ends.\<close>

lemma lerp_abs_bound:
  assumes "0 \<le> w" "w \<le> 1" "\<bar>a\<bar> \<le> m" "\<bar>b\<bar> \<le> m"
  shows "\<bar>lerp w a b\<bar> \<le> m"
proof -
  have "\<bar>a * (1 - w) + b * w\<bar> \<le> \<bar>a * (1 - w)\<bar> + \<bar>b * w\<bar>" by (rule abs_triangle_ineq)
  also have "\<dots> = \<bar>a\<bar> * (1 - w) + \<bar>b\<bar> * w" using assms by (simp add: abs_mult)
  also have "\<dots> \<le> m * (1 - w) + m * w"
    using assms by (intro add_mono mult_right_mono) simp_all
  also have "\<dots> = m" by (simp add: algebra_simps)
  finally show ?thesis by (simp add: lerp_def)
qed

subsection \<open>Gradients\<close>

lemma hash_cases:
  assumes "0 \<le> h" "h \<le> 7"
  shows "h = 0 \<or> h = 1 \<or> h = 2 \<or> h = 3 \<or> h = 4 \<or> h = 5 \<or> h = 6 \<or> h = (7::int)"
  using assms by arith

text \<open>
  Claim C2. For every hash \<open>h\<close> from 0 to 7 and every offset pair \<open>(fx, fz)\<close>,
  \<^verbatim>\<open>gradientDotDistance\<close> returns the dot product of \<open>(fx, fz)\<close> with the direction of
  index \<open>h\<close> in the specification's list, which is the \<open>h\<close>-th of the eight formulas
  \<open>fx + fz\<close>, \<open>- fx + fz\<close>, \<open>fx - fz\<close>, \<open>- fx - fz\<close>, \<open>fx\<close>, \<open>fz\<close>, \<open>- fx\<close>, \<open>- fz\<close>.
\<close>

theorem gradient_dot_product:
  assumes "0 \<le> h" "h \<le> 7"
  shows "gradientDotDistance h fx fz
           = Inr (spec_dotProduct (spec_gradientDirections ! nat h) (fx, fz))
       \<and> gradientDotDistance h fx fz
           = Inr ([fx + fz, - fx + fz, fx - fz, - fx - fz, fx, fz, - fx, - fz] ! nat h)"
  using hash_cases [OF assms]
  by (elim disjE)
    (simp_all add: gradientDotDistance_def spec_gradientDirections_def spec_dotProduct_def)

text \<open>At hash 3 and the offsets (0.3, 0.7): the direction (-1, -1) and the value -1.\<close>

theorem gradient_dot_product_witness:
  "(0::int) \<le> 3 \<and> (3::int) \<le> 7
   \<and> gradientDotDistance 3 (3 / 10) (7 / 10) = Inr (- 1)
   \<and> spec_gradientDirections ! nat 3 = (- 1, - 1)"
proof -
  have h: "(0::int) \<le> 3" "(3::int) \<le> 7" by simp_all
  have "gradientDotDistance 3 (3 / 10) (7 / 10)
          = Inr (spec_dotProduct (spec_gradientDirections ! nat 3) (3 / 10, 7 / 10))"
    using gradient_dot_product [OF h, of "3 / 10" "7 / 10"] by blast
  then show ?thesis by (simp add: spec_gradientDirections_def spec_dotProduct_def)
qed

lemma gradientDotDistance_returns:
  assumes "0 \<le> h" "h \<le> 7"
  shows "\<exists>d. gradientDotDistance h u w = Inr d \<and> \<bar>d\<bar> \<le> \<bar>u\<bar> + \<bar>w\<bar>"
  using hash_cases [OF assms]
  by (elim disjE) (simp_all add: gradientDotDistance_def)

subsection \<open>Bit masks\<close>

lemma and_255_mod: "(k::int) AND 255 = k mod 256"
proof -
  have "k AND mask 8 = take_bit 8 k" by (simp only: take_bit_eq_mask)
  then show ?thesis by (simp add: take_bit_eq_mod mask_eq_exp_minus_1)
qed

lemma and_7_mod: "(k::int) AND 7 = k mod 8"
proof -
  have "k AND mask 3 = take_bit 3 k" by (simp only: take_bit_eq_mask)
  then show ?thesis by (simp add: take_bit_eq_mod mask_eq_exp_minus_1)
qed

lemma mask_7_range: "0 \<le> (h::int) AND 7 \<and> h AND 7 \<le> 7"
proof -
  have "0 \<le> h mod 8" "h mod 8 < 8" by simp_all
  then show ?thesis by (simp add: and_7_mod)
qed

lemma mod_256_range: "0 \<le> (k::int) mod 256 \<and> k mod 256 \<le> 255"
proof -
  have "0 \<le> k mod 256" "k mod 256 < 256" by simp_all
  then show ?thesis by simp
qed

text \<open>The mask on the 32-bit two's-complement value of \<open>k\<close> is \<open>k mod 256\<close>, also for negative \<open>k\<close>.\<close>

lemma sint_and_255: "sint ((word_of_int k :: 32 word) AND 255) = k mod 256"
proof -
  have "(word_of_int k :: 32 word) AND 255 = word_of_int (k AND 255)"
  proof -
    have "(255 :: 32 word) = word_of_int 255" by simp
    then show ?thesis by (simp only: word_wi_log_defs)
  qed
  also have "\<dots> = word_of_int (k mod 256)" by (simp only: and_255_mod)
  finally have "sint ((word_of_int k :: 32 word) AND 255)
                  = sint (word_of_int (k mod 256) :: 32 word)"
    by simp
  also have "\<dots> = k mod 256"
  proof -
    have "0 \<le> k mod 256" "k mod 256 < 256" by simp_all
    then have "(k mod 256 + 2 ^ 31) mod 2 ^ 32 = k mod 256 + 2 ^ 31"
      by (intro mod_pos_pos_trivial) simp_all
    then show ?thesis by (simp add: int_word_sint)
  qed
  finally show ?thesis .
qed

subsection \<open>The cell indices\<close>

lemma float_to_int_floor:
  "float_to_int (floor_c x) =
     (if fits_int \<lfloor>x\<rfloor> then Inr (word_of_int \<lfloor>x\<rfloor>) else Inl ConversionOutOfRange)"
  by (simp add: float_to_int_def floor_c_def Let_def)

lemma gridIndex_in_range:
  assumes "fits_int \<lfloor>x\<rfloor>"
  shows "gridIndex x = Inr (\<lfloor>x\<rfloor> mod 256)"
  using assms by (simp add: gridIndex_def float_to_int_floor and_then_def sint_and_255)

lemma gridIndex_out_of_range:
  assumes "\<not> fits_int \<lfloor>x\<rfloor>"
  shows "gridIndex x = Inl ConversionOutOfRange"
  using assms by (simp add: gridIndex_def float_to_int_floor and_then_def)

text \<open>
  Claim C8. For every input \<open>x\<close> whose floor is a value of \<^verbatim>\<open>int\<close>, the cell index
  \<^verbatim>\<open>(int)floor(x) & 255\<close> lies between 0 and 255 and is \<open>floor x mod 256\<close> with the
  arithmetic (non-negative) modulo, also for negative \<open>x\<close>.
\<close>

theorem grid_index_floor_mod:
  assumes "fits_int \<lfloor>x\<rfloor>"
  shows "\<exists>g. gridIndex x = Inr g \<and> 0 \<le> g \<and> g \<le> 255 \<and> g = \<lfloor>x\<rfloor> mod 256"
  using gridIndex_in_range [OF assms] mod_256_range [of "\<lfloor>x\<rfloor>"] by simp

text \<open>
  At \<open>x = -1/2\<close> the index is 255, the floor -1 modulo 256; the same mask on the cast
  without \<^verbatim>\<open>floor\<close>, which truncates -1/2 to 0, would give 0.
\<close>

theorem grid_index_floor_mod_witness:
  "fits_int \<lfloor>- 1 / 2 :: real\<rfloor>
   \<and> gridIndex (- 1 / 2) = Inr 255
   \<and> and_then (float_to_int (- 1 / 2)) (\<lambda>c. Inr (sint (c AND 255))) = Inr 0"
proof -
  have f: "\<lfloor>- 1 / 2 :: real\<rfloor> = - 1" by simp
  have h: "fits_int \<lfloor>- 1 / 2 :: real\<rfloor>"
    by (simp only: f) (simp add: fits_int_def)
  obtain g where g: "gridIndex (- 1 / 2) = Inr g" "g = \<lfloor>- 1 / 2 :: real\<rfloor> mod 256"
    using grid_index_floor_mod [OF h] by blast
  have "g = 255" using g(2) by (simp only: f) simp
  then have a: "gridIndex (- 1 / 2) = Inr 255" using g(1) by simp
  have c: "\<lceil>- (1 / 2) :: real\<rceil> = 0" by (simp add: ceiling_eq_iff)
  have b: "and_then (float_to_int (- 1 / 2)) (\<lambda>c. Inr (sint (c AND 255))) = Inr 0"
    by (simp add: float_to_int_def and_then_def Let_def c fits_int_def)
  from h a b show ?thesis by blast
qed

subsection \<open>Table reads and the switch\<close>

lemma table_at_in_bounds:
  assumes "0 \<le> i" "i < 512"
  shows "\<exists>p. table_at i = Inr p \<and> 0 \<le> p \<and> p \<le> 255"
proof -
  have "nat i < 512" using assms by simp
  then show ?thesis using assms table_entry [of "nat i"] by (simp add: table_at_def)
qed

lemma cornerHash_in_bounds:
  assumes "0 \<le> a" "a \<le> 256" "0 \<le> b" "b \<le> 256"
  shows "\<exists>p h. table_at a = Inr p \<and> 0 \<le> p + b \<and> p + b \<le> 511
             \<and> table_at (p + b) = Inr h \<and> cornerHash a b = Inr h"
proof -
  obtain p where p: "table_at a = Inr p" "0 \<le> p" "p \<le> 255"
    using table_at_in_bounds [of a] assms by auto
  have pb: "0 \<le> p + b" "p + b < 512" using p assms by simp_all
  obtain h where h: "table_at (p + b) = Inr h"
    using table_at_in_bounds [OF pb] by blast
  have "cornerHash a b = Inr h" by (simp add: cornerHash_def and_then_def p h)
  then show ?thesis using p h pb by auto
qed

lemma masked_dot_returns:
  "\<exists>d. gradientDotDistance (h AND 7) u w = Inr d \<and> \<bar>d\<bar> \<le> \<bar>u\<bar> + \<bar>w\<bar>"
  using mask_7_range [of h] by (intro gradientDotDistance_returns) simp_all

lemma cellNoise_returns:
  assumes "0 \<le> gridX" "gridX \<le> 255" "0 \<le> gridZ" "gridZ \<le> 255"
  shows "\<exists>d1 d2 d3 d4.
           cellNoise gridX gridZ x z
             = Inr (0.5 * lerp (fade z) (lerp (fade x) d1 d2) (lerp (fade x) d3 d4) + 0.5)
           \<and> \<bar>d1\<bar> \<le> \<bar>x\<bar> + \<bar>z\<bar> \<and> \<bar>d2\<bar> \<le> \<bar>x - 1\<bar> + \<bar>z\<bar>
           \<and> \<bar>d3\<bar> \<le> \<bar>x\<bar> + \<bar>z - 1\<bar> \<and> \<bar>d4\<bar> \<le> \<bar>x - 1\<bar> + \<bar>z - 1\<bar>"
proof -
  obtain h1 where h1: "cornerHash gridX gridZ = Inr h1"
    using cornerHash_in_bounds [of gridX gridZ] assms by auto
  obtain h2 where h2: "cornerHash (gridX + 1) gridZ = Inr h2"
    using cornerHash_in_bounds [of "gridX + 1" gridZ] assms by auto
  obtain h3 where h3: "cornerHash gridX (gridZ + 1) = Inr h3"
    using cornerHash_in_bounds [of gridX "gridZ + 1"] assms by auto
  obtain h4 where h4: "cornerHash (gridX + 1) (gridZ + 1) = Inr h4"
    using cornerHash_in_bounds [of "gridX + 1" "gridZ + 1"] assms by auto
  obtain d1 where d1: "gradientDotDistance (h1 AND 7) x z = Inr d1" "\<bar>d1\<bar> \<le> \<bar>x\<bar> + \<bar>z\<bar>"
    using masked_dot_returns by blast
  obtain d2 where d2: "gradientDotDistance (h2 AND 7) (x - 1) z = Inr d2"
      "\<bar>d2\<bar> \<le> \<bar>x - 1\<bar> + \<bar>z\<bar>"
    using masked_dot_returns by blast
  obtain d3 where d3: "gradientDotDistance (h3 AND 7) x (z - 1) = Inr d3"
      "\<bar>d3\<bar> \<le> \<bar>x\<bar> + \<bar>z - 1\<bar>"
    using masked_dot_returns by blast
  obtain d4 where d4: "gradientDotDistance (h4 AND 7) (x - 1) (z - 1) = Inr d4"
      "\<bar>d4\<bar> \<le> \<bar>x - 1\<bar> + \<bar>z - 1\<bar>"
    using masked_dot_returns by blast
  have "cellNoise gridX gridZ x z
          = Inr (0.5 * lerp (fade z) (lerp (fade x) d1 d2) (lerp (fade x) d3 d4) + 0.5)"
    by (simp add: cellNoise_def and_then_def Let_def h1 h2 h3 h4 d1(1) d2(1) d3(1) d4(1))
  then show ?thesis using d1(2) d2(2) d3(2) d4(2) by blast
qed

text \<open>
  Claim C9. When \<open>gridX\<close> and \<open>gridZ\<close> lie between 0 and 255, every read of the
  permutation table in \<^verbatim>\<open>noiseValue\<close> is inside the array: for each of the four corners
  \<open>(a, b)\<close> the inner read at \<open>a\<close> returns an entry \<open>p\<close>, the outer index \<open>p + b\<close> is
  between 0 and 511, and the outer read returns the hash \<open>h\<close>. The masked hash
  \<open>h AND 7\<close> is between 0 and 7, so \<^verbatim>\<open>gradientDotDistance\<close> never ends without a
  \<^verbatim>\<open>return\<close>, and the body of \<^verbatim>\<open>noiseValue\<close> returns a value.
\<close>

theorem lookups_in_bounds:
  assumes "0 \<le> gridX" "gridX \<le> 255" "0 \<le> gridZ" "gridZ \<le> 255"
  shows "(\<forall>a \<in> {gridX, gridX + 1}. \<forall>b \<in> {gridZ, gridZ + 1}.
            \<exists>p h. table_at a = Inr p \<and> 0 \<le> p + b \<and> p + b \<le> 511
                 \<and> table_at (p + b) = Inr h \<and> cornerHash a b = Inr h
                 \<and> 0 \<le> h AND 7 \<and> h AND 7 \<le> 7
                 \<and> (\<forall>u w. gradientDotDistance (h AND 7) u w \<noteq> Inl MissingReturn))
       \<and> (\<exists>r. cellNoise gridX gridZ x z = Inr r)"
proof (intro conjI ballI)
  fix a b assume a: "a \<in> {gridX, gridX + 1}" and b: "b \<in> {gridZ, gridZ + 1}"
  have "0 \<le> a" "a \<le> 256" "0 \<le> b" "b \<le> 256" using a b assms by auto
  then obtain p h where ph: "table_at a = Inr p" "0 \<le> p + b" "p + b \<le> 511"
      "table_at (p + b) = Inr h" "cornerHash a b = Inr h"
    using cornerHash_in_bounds [of a b] by blast
  have "\<forall>u w. gradientDotDistance (h AND 7) u w \<noteq> Inl MissingReturn"
  proof (intro allI)
    fix u w
    obtain d where "gradientDotDistance (h AND 7) u w = Inr d"
      using masked_dot_returns by blast
    then show "gradientDotDistance (h AND 7) u w \<noteq> Inl MissingReturn" by simp
  qed
  then show "\<exists>p h. table_at a = Inr p \<and> 0 \<le> p + b \<and> p + b \<le> 511
                 \<and> table_at (p + b) = Inr h \<and> cornerHash a b = Inr h
                 \<and> 0 \<le> h AND 7 \<and> h AND 7 \<le> 7
                 \<and> (\<forall>u w. gradientDotDistance (h AND 7) u w \<noteq> Inl MissingReturn)"
    using ph mask_7_range [of h] by blast
next
  show "\<exists>r. cellNoise gridX gridZ x z = Inr r"
    using cellNoise_returns [OF assms, of x z] by blast
qed

text \<open>
  At the last cell, \<open>gridX = gridZ = 255\<close>: the top right corner reads index 256, finds
  151, and reads index 151 + 256 = 407.
\<close>

theorem lookups_in_bounds_witness:
  "(0::int) \<le> 255 \<and> (255::int) \<le> 255
   \<and> table_at 256 = Inr 151 \<and> table_at (151 + 256) = Inr 17
   \<and> (\<exists>h. cornerHash (255 + 1) (255 + 1) = Inr h)
   \<and> (\<exists>r. cellNoise 255 255 (1 / 2) (1 / 2) = Inr r)"
proof -
  have h: "(0::int) \<le> 255" "(255::int) \<le> 255" by simp_all
  note bounds = lookups_in_bounds [OF h h, of "1 / 2" "1 / 2"]
  have corners: "\<forall>a \<in> {255, 255 + 1}. \<forall>b \<in> {255, 255 + 1 :: int}.
      \<exists>p h. table_at a = Inr p \<and> 0 \<le> p + b \<and> p + b \<le> 511
           \<and> table_at (p + b) = Inr h \<and> cornerHash a b = Inr h
           \<and> 0 \<le> h AND 7 \<and> h AND 7 \<le> 7
           \<and> (\<forall>u w. gradientDotDistance (h AND 7) u w \<noteq> Inl MissingReturn)"
    using bounds by (rule conjunct1)
  have c: "\<exists>h. cornerHash (255 + 1) (255 + 1) = Inr h"
    using corners by blast
  have r: "\<exists>r. cellNoise 255 255 (1 / 2) (1 / 2) = Inr r"
    using bounds by (rule conjunct2)
  have t: "table_at 256 = Inr 151" "table_at (151 + 256) = Inr 17"
    by (simp_all add: table_at_def permutationTable_def)
  from h t c r show ?thesis by blast
qed

subsection \<open>The noise value\<close>

lemma noiseValue_in_range:
  assumes "fits_int \<lfloor>x\<rfloor>" "fits_int \<lfloor>z\<rfloor>"
  shows "noiseValue x z
           = cellNoise (\<lfloor>x\<rfloor> mod 256) (\<lfloor>z\<rfloor> mod 256) (x - of_int \<lfloor>x\<rfloor>) (z - of_int \<lfloor>z\<rfloor>)"
  using assms by (simp add: noiseValue_def gridIndex_in_range and_then_def floor_c_def)

lemma noiseValue_out_of_range:
  assumes "\<not> fits_int \<lfloor>x\<rfloor> \<or> \<not> fits_int \<lfloor>z\<rfloor>"
  shows "noiseValue x z = Inl ConversionOutOfRange"
proof (cases "fits_int \<lfloor>x\<rfloor>")
  case True
  then have "\<not> fits_int \<lfloor>z\<rfloor>" using assms by simp
  then have "gridIndex z = Inl ConversionOutOfRange" by (rule gridIndex_out_of_range)
  moreover have "gridIndex x = Inr (\<lfloor>x\<rfloor> mod 256)"
    using True by (rule gridIndex_in_range)
  ultimately show ?thesis by (simp add: noiseValue_def and_then_def)
next
  case False
  then have "gridIndex x = Inl ConversionOutOfRange" by (rule gridIndex_out_of_range)
  then show ?thesis by (simp add: noiseValue_def and_then_def)
qed

lemma noiseValue_returns:
  assumes "fits_int \<lfloor>x\<rfloor>" "fits_int \<lfloor>z\<rfloor>"
  shows "\<exists>d1 d2 d3 d4.
           noiseValue x z
             = Inr (0.5 * lerp (fade (z - of_int \<lfloor>z\<rfloor>))
                          (lerp (fade (x - of_int \<lfloor>x\<rfloor>)) d1 d2)
                          (lerp (fade (x - of_int \<lfloor>x\<rfloor>)) d3 d4) + 0.5)
           \<and> \<bar>d1\<bar> \<le> \<bar>x - of_int \<lfloor>x\<rfloor>\<bar> + \<bar>z - of_int \<lfloor>z\<rfloor>\<bar>
           \<and> \<bar>d2\<bar> \<le> \<bar>x - of_int \<lfloor>x\<rfloor> - 1\<bar> + \<bar>z - of_int \<lfloor>z\<rfloor>\<bar>
           \<and> \<bar>d3\<bar> \<le> \<bar>x - of_int \<lfloor>x\<rfloor>\<bar> + \<bar>z - of_int \<lfloor>z\<rfloor> - 1\<bar>
           \<and> \<bar>d4\<bar> \<le> \<bar>x - of_int \<lfloor>x\<rfloor> - 1\<bar> + \<bar>z - of_int \<lfloor>z\<rfloor> - 1\<bar>"
proof -
  have gx: "0 \<le> \<lfloor>x\<rfloor> mod 256" "\<lfloor>x\<rfloor> mod 256 \<le> 255"
    using mod_256_range [of "\<lfloor>x\<rfloor>"] by simp_all
  have gz: "0 \<le> \<lfloor>z\<rfloor> mod 256" "\<lfloor>z\<rfloor> mod 256 \<le> 255"
    using mod_256_range [of "\<lfloor>z\<rfloor>"] by simp_all
  show ?thesis
    unfolding noiseValue_in_range [OF assms]
    by (rule cellNoise_returns [OF gx gz])
qed

lemma noiseValue_defined_iff:
  "(\<exists>r. noiseValue x z = Inr r) \<longleftrightarrow> fits_int \<lfloor>x\<rfloor> \<and> fits_int \<lfloor>z\<rfloor>"
proof
  assume defined: "\<exists>r. noiseValue x z = Inr r"
  show "fits_int \<lfloor>x\<rfloor> \<and> fits_int \<lfloor>z\<rfloor>"
  proof (rule ccontr)
    assume "\<not> (fits_int \<lfloor>x\<rfloor> \<and> fits_int \<lfloor>z\<rfloor>)"
    then have "\<not> fits_int \<lfloor>x\<rfloor> \<or> \<not> fits_int \<lfloor>z\<rfloor>" by simp
    then have "noiseValue x z = Inl ConversionOutOfRange" by (rule noiseValue_out_of_range)
    with defined show False by simp
  qed
next
  assume "fits_int \<lfloor>x\<rfloor> \<and> fits_int \<lfloor>z\<rfloor>"
  then show "\<exists>r. noiseValue x z = Inr r"
    using noiseValue_returns [of x z] by blast
qed

lemma noiseValue_at_integers:
  assumes "fits_int i" "fits_int j"
  shows "noiseValue (of_int i) (of_int j) = Inr (1 / 2)"
proof -
  have fits: "fits_int \<lfloor>of_int i :: real\<rfloor>" "fits_int \<lfloor>of_int j :: real\<rfloor>"
    using assms by simp_all
  obtain d1 d2 d3 d4 where
    r: "noiseValue (of_int i) (of_int j)
          = Inr (0.5 * lerp (fade 0) (lerp (fade 0) d1 d2) (lerp (fade 0) d3 d4) + 0.5)"
    and d: "\<bar>d1\<bar> \<le> 0"
    using noiseValue_returns [OF fits] by auto
  have "d1 = 0" using d by simp
  then show ?thesis using r by (simp add: lerp_def fade_def)
qed

lemma noiseValue_half: "noiseValue (1 / 2) (1 / 2) = Inr (1 / 4)"
proof -
  have f: "\<lfloor>1 / 2 :: real\<rfloor> = 0" by simp
  have fits: "fits_int \<lfloor>1 / 2 :: real\<rfloor>" by (simp add: fits_int_def)
  have t: "table_at 0 = Inr 151" "table_at 1 = Inr 160" "table_at 151 = Inr 17"
    "table_at 152 = Inr 182" "table_at 160 = Inr 119" "table_at 161 = Inr 248"
    by (simp_all add: table_at_def permutationTable_def)
  have m: "(17::int) AND 7 = 1" "(182::int) AND 7 = 6" "(119::int) AND 7 = 7"
    "(248::int) AND 7 = 0"
    by (simp_all add: and_7_mod)
  show ?thesis
    unfolding noiseValue_in_range [OF fits fits] f
    by (simp add: cellNoise_def cornerHash_def and_then_def t m gradientDotDistance_def
        lerp_def fade_def)
qed

text \<open>
  Claim C10. Whenever \<^verbatim>\<open>noiseValue\<close> returns a value, the value lies between -0.5 and
  1.5: the offsets into the cell lie in [0, 1), so each corner dot product is at most 2
  in magnitude, both weights lie in [0, 1], each \<^verbatim>\<open>lerp\<close> keeps the bound 2, and the
  final \<open>0.5 * value + 0.5\<close> maps [-2, 2] into [-0.5, 1.5].
\<close>

theorem noise_value_range:
  assumes "noiseValue x z = Inr r"
  shows "- (1 / 2) \<le> r \<and> r \<le> 3 / 2"
proof -
  let ?fx = "x - of_int \<lfloor>x\<rfloor>" and ?fz = "z - of_int \<lfloor>z\<rfloor>"
  have fits: "fits_int \<lfloor>x\<rfloor>" "fits_int \<lfloor>z\<rfloor>"
    using assms noiseValue_defined_iff [of x z] by auto
  obtain d1 d2 d3 d4 where
    r: "noiseValue x z = Inr (0.5 * lerp (fade ?fz) (lerp (fade ?fx) d1 d2)
                                         (lerp (fade ?fx) d3 d4) + 0.5)"
    and d: "\<bar>d1\<bar> \<le> \<bar>?fx\<bar> + \<bar>?fz\<bar>" "\<bar>d2\<bar> \<le> \<bar>?fx - 1\<bar> + \<bar>?fz\<bar>"
           "\<bar>d3\<bar> \<le> \<bar>?fx\<bar> + \<bar>?fz - 1\<bar>" "\<bar>d4\<bar> \<le> \<bar>?fx - 1\<bar> + \<bar>?fz - 1\<bar>"
    using noiseValue_returns [OF fits] by blast
  have fx: "0 \<le> ?fx" "?fx < 1" and fz: "0 \<le> ?fz" "?fz < 1" by linarith+
  have dots: "\<bar>d1\<bar> \<le> 2" "\<bar>d2\<bar> \<le> 2" "\<bar>d3\<bar> \<le> 2" "\<bar>d4\<bar> \<le> 2"
    using d fx fz by linarith+
  have u: "0 \<le> fade ?fx" "fade ?fx \<le> 1"
    using fx by (simp_all add: fade_nonneg fade_le_one)
  have v: "0 \<le> fade ?fz" "fade ?fz \<le> 1"
    using fz by (simp_all add: fade_nonneg fade_le_one)
  have "\<bar>lerp (fade ?fx) d1 d2\<bar> \<le> 2" "\<bar>lerp (fade ?fx) d3 d4\<bar> \<le> 2"
    using u dots by (simp_all add: lerp_abs_bound)
  then have "\<bar>lerp (fade ?fz) (lerp (fade ?fx) d1 d2) (lerp (fade ?fx) d3 d4)\<bar> \<le> 2"
    using v by (simp add: lerp_abs_bound)
  moreover have "r = 0.5 * lerp (fade ?fz) (lerp (fade ?fx) d1 d2) (lerp (fade ?fx) d3 d4) + 0.5"
    using assms r by simp
  ultimately show ?thesis by linarith
qed

text \<open>At the centre of the first cell the noise value is 1/4.\<close>

theorem noise_value_range_witness:
  "noiseValue (1 / 2) (1 / 2) = Inr (1 / 4)
   \<and> - (1 / 2) \<le> (1 / 4 :: real) \<and> (1 / 4 :: real) \<le> 3 / 2"
  using noise_value_range [OF noiseValue_half] noiseValue_half by simp

text \<open>
  Claim C4 as stated, that \<^verbatim>\<open>noiseValue\<close> is defined for every finite input, fails at
  \<open>x = 3000000000\<close>, a value of \<^verbatim>\<open>float\<close>: its floor is above \<^verbatim>\<open>INT_MAX\<close> and the
  cast to \<^verbatim>\<open>int\<close> is undefined.
\<close>

theorem noise_value_undefined_counterexample:
  "noiseValue 3000000000 0 = Inl ConversionOutOfRange"
proof -
  have "\<not> fits_int \<lfloor>3000000000 :: real\<rfloor>" by (simp add: fits_int_def)
  then show ?thesis by (intro noiseValue_out_of_range disjI1)
qed

text \<open>
  Claim C4, amended. \<^verbatim>\<open>noiseValue\<close> returns a value, with no undefined step (cast, table
  read or switch), exactly for the inputs \<open>(x, z)\<close> whose floors both are values of
  \<^verbatim>\<open>int\<close>.
\<close>

theorem noise_value_total_in_int_range:
  "(\<exists>r. noiseValue x z = Inr r) \<longleftrightarrow> fits_int \<lfloor>x\<rfloor> \<and> fits_int \<lfloor>z\<rfloor>"
  by (rule noiseValue_defined_iff)

text \<open>At the point (10.5, -3.25), with floors 10 and -4.\<close>

theorem noise_value_total_in_int_range_witness:
  "fits_int \<lfloor>21 / 2 :: real\<rfloor> \<and> fits_int \<lfloor>- 13 / 4 :: real\<rfloor>
   \<and> (\<exists>r. noiseValue (21 / 2) (- 13 / 4) = Inr r)"
proof -
  have f: "\<lfloor>21 / 2 :: real\<rfloor> = 10" "\<lfloor>- 13 / 4 :: real\<rfloor> = - 4" by linarith+
  have h: "fits_int \<lfloor>21 / 2 :: real\<rfloor> \<and> fits_int \<lfloor>- 13 / 4 :: real\<rfloor>"
    by (simp only: f) (simp add: fits_int_def)
  then have "\<exists>r. noiseValue (21 / 2) (- 13 / 4) = Inr r"
    by (simp only: noise_value_total_in_int_range)
  with h show ?thesis by blast
qed

text \<open>
  Claim C5 as stated, that \<^verbatim>\<open>noiseValue\<close> is exactly 0.5 at every pair of whole numbers,
  fails at \<open>(2147483648, 0)\<close>: \<open>2 ^ 31\<close> is a whole number and a value of \<^verbatim>\<open>float\<close>,
  but not a value of \<^verbatim>\<open>int\<close>, and the cast is undefined.
\<close>

theorem noise_value_lattice_counterexample:
  "noiseValue (of_int 2147483648) (of_int 0) = Inl ConversionOutOfRange"
proof -
  have "\<not> fits_int \<lfloor>of_int 2147483648 :: real\<rfloor>" by (simp add: fits_int_def)
  then show ?thesis by (intro noiseValue_out_of_range disjI1)
qed

text \<open>
  Claim C5, amended. For every pair of whole numbers \<open>(i, j)\<close> that are values of
  \<^verbatim>\<open>int\<close>, \<^verbatim>\<open>noiseValue\<close> evaluates the easing curve at offset 0, where it is 0; a weight
  of 0 makes \<^verbatim>\<open>lerp\<close> return its first end, the value of the corner itself; the dot
  product at offset (0, 0) is 0 for every gradient index; and \<^verbatim>\<open>noiseValue(i, j)\<close> is
  exactly 0.5.
\<close>

theorem noise_value_lattice:
  assumes "fits_int i" "fits_int j"
  shows "fade (of_int i - floor_c (of_int i)) = 0
       \<and> (\<forall>a b. lerp 0 a b = a)
       \<and> (\<forall>h. 0 \<le> h \<and> h \<le> 7 \<longrightarrow> gradientDotDistance h 0 0 = Inr 0)
       \<and> noiseValue (of_int i) (of_int j) = Inr (1 / 2)"
proof (intro conjI allI impI)
  show "fade (of_int i - floor_c (of_int i)) = 0" by (simp add: floor_c_def fade_def)
  show "lerp 0 a b = a" for a b by (simp add: lerp_def)
  show "gradientDotDistance h 0 0 = Inr 0" if "0 \<le> h \<and> h \<le> 7" for h
    using that gradientDotDistance_returns [of h 0 0] by auto
  show "noiseValue (of_int i) (of_int j) = Inr (1 / 2)"
    using assms by (rule noiseValue_at_integers)
qed

text \<open>At the lattice point (10, -3).\<close>

theorem noise_value_lattice_witness:
  "fits_int 10 \<and> fits_int (- 3) \<and> noiseValue 10 (- 3) = Inr (1 / 2)"
proof -
  have h: "fits_int 10" "fits_int (- 3)" by (simp_all add: fits_int_def)
  have "noiseValue (of_int 10) (of_int (- 3)) = Inr (1 / 2)"
    using noise_value_lattice [OF h] by blast
  then show ?thesis using h by simp
qed

subsection \<open>Periodicity\<close>

lemma noiseValue_shift_x:
  assumes "fits_int \<lfloor>x\<rfloor>" "fits_int (\<lfloor>x\<rfloor> + 256)"
  shows "noiseValue (x + 256) z = noiseValue x z"
proof -
  have fl: "\<lfloor>x + 256\<rfloor> = \<lfloor>x\<rfloor> + 256" by linarith
  have g: "gridIndex (x + 256) = gridIndex x"
    using assms by (simp add: gridIndex_in_range fl)
  have fc: "floor_c (x + 256) = floor_c x + 256" by (simp add: floor_c_def fl)
  show ?thesis by (simp add: noiseValue_def g fc)
qed

lemma noiseValue_shift_z:
  assumes "fits_int \<lfloor>z\<rfloor>" "fits_int (\<lfloor>z\<rfloor> + 256)"
  shows "noiseValue x (z + 256) = noiseValue x z"
proof -
  have fl: "\<lfloor>z + 256\<rfloor> = \<lfloor>z\<rfloor> + 256" by linarith
  have g: "gridIndex (z + 256) = gridIndex z"
    using assms by (simp add: gridIndex_in_range fl)
  have fc: "floor_c (z + 256) = floor_c z + 256" by (simp add: floor_c_def fl)
  show ?thesis by (simp add: noiseValue_def g fc)
qed

text \<open>
  Claim C3 as stated, periodicity at every input, fails at \<open>x = 2147483520\<close>
  (\<open>2 ^ 31 - 128\<close>, a value of \<^verbatim>\<open>float\<close> and of \<^verbatim>\<open>int\<close>): there the noise value is 0.5, while
  at \<open>x + 256\<close> the floor is above \<^verbatim>\<open>INT_MAX\<close> and the cast is undefined.
\<close>

theorem noise_value_period_counterexample:
  "noiseValue 2147483520 0 = Inr (1 / 2)
   \<and> noiseValue (2147483520 + 256) 0 = Inl ConversionOutOfRange"
proof -
  have "fits_int 2147483520" "fits_int 0" by (simp_all add: fits_int_def)
  then have "noiseValue (of_int 2147483520) (of_int 0) = Inr (1 / 2)"
    by (rule noiseValue_at_integers)
  then have a: "noiseValue 2147483520 0 = Inr (1 / 2)" by simp
  have "\<not> fits_int \<lfloor>2147483520 + 256 :: real\<rfloor>" by (simp add: fits_int_def)
  then have "noiseValue (2147483520 + 256) 0 = Inl ConversionOutOfRange"
    by (intro noiseValue_out_of_range disjI1)
  with a show ?thesis by blast
qed

text \<open>
  Claim C3, amended. In exact arithmetic, for every input \<open>(x, z)\<close> such that the floors
  of \<open>x\<close> and of \<open>x + 256\<close> both are values of \<^verbatim>\<open>int\<close>, \<^verbatim>\<open>noiseValue(x + 256, z)\<close> equals
  \<^verbatim>\<open>noiseValue(x, z)\<close>; and the same in \<open>z\<close>.
\<close>

theorem noise_value_period_256:
  "(fits_int \<lfloor>x\<rfloor> \<and> fits_int (\<lfloor>x\<rfloor> + 256) \<longrightarrow> noiseValue (x + 256) z = noiseValue x z)
   \<and> (fits_int \<lfloor>z\<rfloor> \<and> fits_int (\<lfloor>z\<rfloor> + 256) \<longrightarrow> noiseValue x (z + 256) = noiseValue x z)"
  by (simp add: noiseValue_shift_x noiseValue_shift_z)

text \<open>At the centre of the first cell, shifted by 256 along either axis.\<close>

theorem noise_value_period_256_witness:
  "fits_int \<lfloor>1 / 2 :: real\<rfloor> \<and> fits_int (\<lfloor>1 / 2 :: real\<rfloor> + 256)
   \<and> noiseValue (1 / 2 + 256) (1 / 2) = Inr (1 / 4)
   \<and> noiseValue (1 / 2) (1 / 2 + 256) = Inr (1 / 4)"
proof -
  have h: "fits_int \<lfloor>1 / 2 :: real\<rfloor> \<and> fits_int (\<lfloor>1 / 2 :: real\<rfloor> + 256)"
    by (simp add: fits_int_def)
  note period = noise_value_period_256 [of "1 / 2" "1 / 2"]
  have "noiseValue (1 / 2 + 256) (1 / 2) = noiseValue (1 / 2) (1 / 2)"
    using period h by blast
  moreover have "noiseValue (1 / 2) (1 / 2 + 256) = noiseValue (1 / 2) (1 / 2)"
    using period h by blast
  ultimately show ?thesis using h by (simp only: noiseValue_half)
qed

subsection \<open>The terrain height\<close>






end
